theory Spec2Isabelle
  imports Complex_Main
begin

section \<open>Python strings\<close>

text \<open>
  The analyzer (\<^verbatim>\<open>backend/analyzer.py\<close>) works on Python \<^verbatim>\<open>str\<close> values with the
  built-in methods \<^verbatim>\<open>strip\<close>, \<^verbatim>\<open>startswith\<close>, \<^verbatim>\<open>endswith\<close>, \<^verbatim>\<open>split\<close>,
  \<^verbatim>\<open>splitlines\<close>, \<^verbatim>\<open>isnumeric\<close>, slicing and \<^verbatim>\<open>join\<close>. Text is modelled as
  \<^typ>\<open>string\<close>; the definitions below give these methods on ASCII text, where a
  character is one \<^typ>\<open>char\<close>.
\<close>

definition DQ3 :: string where
  \<comment> \<open>three double-quote marks\<close>
  "DQ3 = [CHR 0x22, CHR 0x22, CHR 0x22]"

definition SQ3 :: string where
  \<comment> \<open>three single-quote marks\<close>
  "SQ3 = [CHR 0x27, CHR 0x27, CHR 0x27]"

definition NL :: string where
  \<comment> \<open>the one-character string holding a line feed\<close>
  "NL = [CHR 0x0A]"

definition isspace :: "char \<Rightarrow> bool" where
  \<comment> \<open>the ASCII characters that \<^verbatim>\<open>str.isspace\<close> accepts and \<^verbatim>\<open>str.strip()\<close> removes\<close>
  "isspace c = (of_char c \<in> {9, 10, 11, 12, 13, 28, 29, 30, 31, 32 :: nat})"

definition lstrip :: "string \<Rightarrow> string" where
  "lstrip s = dropWhile isspace s"

definition rstrip :: "string \<Rightarrow> string" where
  "rstrip s = rev (dropWhile isspace (rev s))"

definition strip :: "string \<Rightarrow> string" where
  "strip s = lstrip (rstrip s)"

definition startswith :: "string \<Rightarrow> string \<Rightarrow> bool" where
  \<comment> \<open>\<^verbatim>\<open>s.startswith(p)\<close>\<close>
  "startswith s p = (take (length p) s = p)"

definition endswith :: "string \<Rightarrow> string \<Rightarrow> bool" where
  \<comment> \<open>\<^verbatim>\<open>s.endswith(p)\<close>\<close>
  "endswith s p = (length p \<le> length s \<and> drop (length s - length p) s = p)"

definition slice_3_minus3 :: "string \<Rightarrow> string" where
  \<comment> \<open>\<^verbatim>\<open>s[3:-3]\<close>: empty when \<^verbatim>\<open>s\<close> has fewer than seven characters\<close>
  "slice_3_minus3 s = take (length s - 6) (drop 3 s)"

fun str_split :: "char \<Rightarrow> string \<Rightarrow> string list" where
  \<comment> \<open>\<^verbatim>\<open>s.split(sep)\<close> for a one-character separator\<close>
  "str_split sep [] = [[]]"
| "str_split sep (c # cs) =
     (if c = sep then [] # str_split sep cs
      else (case str_split sep cs of [] \<Rightarrow> [[c]] | l # ls \<Rightarrow> (c # l) # ls))"

fun str_join :: "string \<Rightarrow> string list \<Rightarrow> string" where
  \<comment> \<open>\<^verbatim>\<open>sep.join(xs)\<close>\<close>
  "str_join sep [] = []"
| "str_join sep [x] = x"
| "str_join sep (x # y # ys) = x @ sep @ str_join sep (y # ys)"

definition is_linebreak :: "char \<Rightarrow> bool" where
  \<comment> \<open>the ASCII line boundaries of \<^verbatim>\<open>str.splitlines\<close>\<close>
  "is_linebreak c = (of_char c \<in> {10, 11, 12, 13, 28, 29, 30 :: nat})"

fun splitlines_from :: "string \<Rightarrow> string \<Rightarrow> string list" where
  \<comment> \<open>\<^verbatim>\<open>splitlines\<close> with the current line (reversed) as accumulator; CR LF is one boundary\<close>
  "splitlines_from cur [] = (if cur = [] then [] else [rev cur])"
| "splitlines_from cur [c] = (if is_linebreak c then [rev cur] else [rev (c # cur)])"
| "splitlines_from cur (c # d # cs) =
     (if c = CHR 0x0D \<and> d = CHR 0x0A then rev cur # splitlines_from [] cs
      else if is_linebreak c then rev cur # splitlines_from [] (d # cs)
      else splitlines_from (c # cur) (d # cs))"

definition splitlines :: "string \<Rightarrow> string list" where
  "splitlines s = splitlines_from [] s"

definition isdigit_ascii :: "char \<Rightarrow> bool" where
  "isdigit_ascii c = (48 \<le> (of_char c :: nat) \<and> (of_char c :: nat) \<le> 57)"

definition isnumeric :: "string \<Rightarrow> bool" where
  \<comment> \<open>\<^verbatim>\<open>str.isnumeric\<close> on ASCII text: at least one character, all of them digits\<close>
  "isnumeric s = (s \<noteq> [] \<and> list_all isdigit_ascii s)"

fun expandtabs_from :: "nat \<Rightarrow> string \<Rightarrow> string" where
  \<comment> \<open>\<^verbatim>\<open>str.expandtabs()\<close> (tab size 8) with the current column as accumulator\<close>
  "expandtabs_from col [] = []"
| "expandtabs_from col (c # cs) =
     (if c = CHR 0x09 then replicate (8 - col mod 8) CHR '' '' @ expandtabs_from 0 cs
      else if c = CHR 0x0A \<or> c = CHR 0x0D then c # expandtabs_from 0 cs
      else c # expandtabs_from (Suc col) cs)"

definition expandtabs :: "string \<Rightarrow> string" where
  "expandtabs s = expandtabs_from 0 s"

subsection \<open>The standard library's \<^verbatim>\<open>inspect.cleandoc\<close>\<close>

text \<open>
  \<^verbatim>\<open>ast.get_docstring(node)\<close>, which the analyzer calls, passes the literal's value
  through \<^verbatim>\<open>inspect.cleandoc\<close>:
  \<^verbatim>\<open>
    lines = doc.expandtabs().split('\n')
    margin = sys.maxsize
    for line in lines[1:]:
        content = len(line.lstrip())
        if content:
            indent = len(line) - content
            margin = min(margin, indent)
    if lines:
        lines[0] = lines[0].lstrip()
    if margin < sys.maxsize:
        for i in range(1, len(lines)): lines[i] = lines[i][margin:]
    while lines and not lines[-1]:
        lines.pop()
    while lines and not lines[0]:
        lines.pop(0)
    return '\n'.join(lines)
  \<close>
  The margin is an \<^typ>\<open>nat option\<close>, \<^const>\<open>None\<close> standing for \<^verbatim>\<open>sys.maxsize\<close>
  (no line is that long).
\<close>

fun find_margin :: "string list \<Rightarrow> nat option \<Rightarrow> nat option" where
  "find_margin [] margin = margin"
| "find_margin (line # rest) margin =
     (let content = length (lstrip line) in
      if content \<noteq> 0 then
        (let indent = length line - content in
         find_margin rest (case margin of None \<Rightarrow> Some indent | Some m \<Rightarrow> Some (min m indent)))
      else find_margin rest margin)"

definition pop_trailing_blank :: "string list \<Rightarrow> string list" where
  "pop_trailing_blank lines = rev (dropWhile (\<lambda>l. l = []) (rev lines))"

definition pop_leading_blank :: "string list \<Rightarrow> string list" where
  "pop_leading_blank lines = dropWhile (\<lambda>l. l = []) lines"

definition cleandoc :: "string \<Rightarrow> string" where
  "cleandoc doc =
     (case str_split (CHR 0x0A) (expandtabs doc) of
        [] \<Rightarrow> []
      | first # rest \<Rightarrow>
          (let margin = find_margin rest None;
               first' = lstrip first;
               rest' = (case margin of None \<Rightarrow> rest | Some m \<Rightarrow> map (drop m) rest)
           in str_join NL (pop_leading_blank (pop_trailing_blank (first' # rest')))))"

section \<open>The syntax tree\<close>

text \<open>
  \<^verbatim>\<open>ast.parse\<close> yields a tree of the standard library's node classes. The model keeps
  the node classes and fields the analyzer reads or traverses. \<^verbatim>\<open>ast.arguments\<close> has the
  fields \<^verbatim>\<open>posonlyargs, args, vararg, kwonlyargs, kw_defaults, kwarg, defaults\<close>;
  \<^verbatim>\<open>defaults\<close> holds the default values of the parameters that can be passed
  positionally (those of \<^verbatim>\<open>posonlyargs\<close> followed by \<^verbatim>\<open>args\<close>), aligned to the right.

  Statements nest only through statement lists, so every statement class other than
  the four the analyzer distinguishes is \<open>OtherStmt\<close> with the statements nested in it,
  in field order (none for a simple statement). A non-string constant is kept as the
  text \<^verbatim>\<open>str(value)\<close> gives for it.
\<close>

datatype const_value = Str string | NonStr string

datatype expr =
    Name string
  | Subscript expr expr
  | Attribute expr string
  | Constant const_value
  | OtherExpr

record arg =
  arg :: string
  annotation :: "expr option"

record arguments =
  posonlyargs :: "arg list"
  args :: "arg list"
  vararg :: "arg option"
  kwonlyargs :: "arg list"
  kw_defaults :: "expr option list"
  kwarg :: "arg option"
  defaults :: "expr list"

datatype stmt =
    FunctionDef string arguments "stmt list" "expr option"
  | AsyncFunctionDef string arguments "stmt list" "expr option"
  | ClassDef string "stmt list"
  | Expr expr
  | OtherStmt "stmt list"

text \<open>
  Rendering an annotation: \<^verbatim>\<open>ast.unparse\<close> belongs to the standard library and exists
  from Python 3.9 on. It is a parameter: \<^const>\<open>None\<close> when \<^verbatim>\<open>hasattr(ast, 'unparse')\<close>
  is false, \<open>Some u\<close> otherwise, where \<open>u e = None\<close> stands for a call that raises.
\<close>

type_synonym unparse_fn = "(expr \<Rightarrow> string option) option"

datatype error = SyntaxError string | IndexError | UnparseError

section \<open>\<^verbatim>\<open>ASTAnalyzer\<close>\<close>

subsection \<open>\<^verbatim>\<open>_annotation_to_string\<close>\<close>

fun annotation_to_string :: "expr \<Rightarrow> string" where
  "annotation_to_string (Name ident) = ident"
| "annotation_to_string (Subscript v sl) =
     annotation_to_string v @ ''['' @ annotation_to_string sl @ '']''"
| "annotation_to_string (Attribute v attr) = annotation_to_string v @ ''.'' @ attr"
| "annotation_to_string (Constant (Str s)) = s"
| "annotation_to_string (Constant (NonStr s)) = s"
| "annotation_to_string OtherExpr = ''Any''"

subsection \<open>\<^verbatim>\<open>_generate_baseline_docstring\<close>\<close>

text \<open>
  An entry of \<^verbatim>\<open>args_info\<close> is a dict with the keys \<^verbatim>\<open>name\<close>, \<^verbatim>\<open>type\<close>,
  \<^verbatim>\<open>default\<close> and, only for the two variadic parameters, \<^verbatim>\<open>vararg\<close> or \<^verbatim>\<open>kwargs\<close>;
  an absent key is \<^const>\<open>None\<close>.
\<close>

record arg_info =
  arg_name :: string
  arg_type :: string
  arg_default :: bool
  arg_vararg :: "bool option"
  arg_kwargs :: "bool option"

definition get_flag :: "bool option \<Rightarrow> bool" where
  \<comment> \<open>\<^verbatim>\<open>arg.get(key, False)\<close>\<close>
  "get_flag v = (case v of None \<Rightarrow> False | Some b \<Rightarrow> b)"

definition arg_line :: "arg_info \<Rightarrow> string" where
  "arg_line a =
     (let is_kwargs = get_flag (arg_kwargs a); is_vararg = get_flag (arg_vararg a) in
      if is_vararg then
        ''    *'' @ arg_name a @ '' ('' @ arg_type a @ ''): Variable positional arguments''
      else if is_kwargs then
        ''    **'' @ arg_name a @ '' ('' @ arg_type a @ ''): Variable keyword arguments''
      else
        ''    '' @ arg_name a @ '' ('' @ arg_type a @ ''): Description of '' @ arg_name a)"

fun append_arg_lines :: "arg_info list \<Rightarrow> string list \<Rightarrow> string list" where
  \<comment> \<open>\<^verbatim>\<open>for arg in args: lines.append(...)\<close>\<close>
  "append_arg_lines [] lines = lines"
| "append_arg_lines (a # rest) lines = append_arg_lines rest (lines @ [arg_line a])"

definition baseline_lines :: "string \<Rightarrow> arg_info list \<Rightarrow> string list" where
  \<comment> \<open>the list \<^verbatim>\<open>lines\<close> when \<^verbatim>\<open>_generate_baseline_docstring\<close> joins it\<close>
  "baseline_lines func_name as =
     (let lines = [];
          lines = lines @ [func_name];
          lines = (if as = [] then lines
                   else append_arg_lines as ((lines @ ['''']) @ [''Args:'']));
          lines = lines @ [''''];
          lines = lines @ [''Returns:''];
          lines = lines @ [''    Any: Description of return value'']
      in lines)"

definition generate_baseline_docstring ::
    "string \<Rightarrow> arg_info list \<Rightarrow> string option \<Rightarrow> string" where
  "generate_baseline_docstring func_name as class_name = str_join NL (baseline_lines func_name as)"

subsection \<open>\<^verbatim>\<open>_extract_function_info\<close>\<close>

definition get_docstring :: "stmt list \<Rightarrow> string option" where
  \<comment> \<open>\<^verbatim>\<open>ast.get_docstring(node)\<close> on the node's body\<close>
  "get_docstring body =
     (case body of
        Expr (Constant (Str text)) # _ \<Rightarrow> Some (cleandoc text)
      | _ \<Rightarrow> None)"

definition render_annotation :: "unparse_fn \<Rightarrow> expr option \<Rightarrow> string" where
  \<comment> \<open>the value stored under \<^verbatim>\<open>'type'\<close>: \<^verbatim>\<open>arg_type or 'Any'\<close>\<close>
  "render_annotation unparse ann =
     (let arg_type =
        (case ann of
           None \<Rightarrow> None
         | Some a \<Rightarrow>
             (case unparse of
                Some u \<Rightarrow> (case u a of Some s \<Rightarrow> Some s | None \<Rightarrow> Some ''Any'')
              | None \<Rightarrow> Some (annotation_to_string a)))
      in case arg_type of None \<Rightarrow> ''Any'' | Some s \<Rightarrow> (if s = [] then ''Any'' else s))"

definition positional_info :: "unparse_fn \<Rightarrow> arg \<Rightarrow> arg_info" where
  "positional_info unparse a =
     \<lparr>arg_name = arg a, arg_type = render_annotation unparse (annotation a),
      arg_default = False, arg_vararg = None, arg_kwargs = None\<rparr>"

definition kwonly_info :: "unparse_fn \<Rightarrow> arg \<Rightarrow> arg_info" where
  "kwonly_info unparse a =
     \<lparr>arg_name = arg a, arg_type = render_annotation unparse (annotation a),
      arg_default = True, arg_vararg = None, arg_kwargs = None\<rparr>"

definition vararg_info :: "arg \<Rightarrow> arg_info" where
  "vararg_info a =
     \<lparr>arg_name = arg a, arg_type = ''Any'', arg_default = False,
      arg_vararg = Some True, arg_kwargs = None\<rparr>"

definition kwarg_info :: "arg \<Rightarrow> arg_info" where
  "kwarg_info a =
     \<lparr>arg_name = arg a, arg_type = ''Any'', arg_default = False,
      arg_vararg = None, arg_kwargs = Some True\<rparr>"

definition collect_args :: "unparse_fn \<Rightarrow> arguments \<Rightarrow> arg_info list" where
  \<comment> \<open>\<^verbatim>\<open>args_info\<close> after the four extraction blocks, before the defaults loop\<close>
  "collect_args unparse a =
     map (positional_info unparse) (args a) @
     map (kwonly_info unparse) (kwonlyargs a) @
     (case vararg a of None \<Rightarrow> [] | Some v \<Rightarrow> [vararg_info v]) @
     (case kwarg a of None \<Rightarrow> [] | Some k \<Rightarrow> [kwarg_info k])"

definition set_default_at :: "int \<Rightarrow> arg_info list \<Rightarrow> error + arg_info list" where
  \<comment> \<open>\<^verbatim>\<open>if i < len(args_info): args_info[i]['default'] = True\<close>; a negative index counts
      from the end of the list and raises once it falls before its start\<close>
  "set_default_at i info =
     (let n = int (length info) in
      if i < n then
        (let j = (if i < 0 then n + i else i) in
         if 0 \<le> j then Inr (info[nat j := (info ! nat j)\<lparr>arg_default := True\<rparr>])
         else Inl IndexError)
      else Inr info)"

fun defaults_loop :: "int \<Rightarrow> expr list \<Rightarrow> arg_info list \<Rightarrow> error + arg_info list" where
  \<comment> \<open>\<^verbatim>\<open>for i, default in enumerate(node.args.defaults, start=...)\<close>\<close>
  "defaults_loop i [] info = Inr info"
| "defaults_loop i (d # ds) info =
     (case set_default_at i info of
        Inl e \<Rightarrow> Inl e
      | Inr info' \<Rightarrow> defaults_loop (i + 1) ds info')"

record function_info =
  name :: string
  class_name :: "string option"
  has_docstring :: bool
  docstring :: "string option"
  info_args :: "arg_info list"
  return_type :: "string option"
  baseline_docstring :: string

definition render_returns :: "unparse_fn \<Rightarrow> expr option \<Rightarrow> error + string option" where
  \<comment> \<open>\<^verbatim>\<open>ast.unparse(node.returns) if node.returns and hasattr(ast, 'unparse') else None\<close>,
      outside any \<^verbatim>\<open>try\<close>\<close>
  "render_returns unparse ret =
     (case ret of
        None \<Rightarrow> Inr None
      | Some r \<Rightarrow>
          (case unparse of
             None \<Rightarrow> Inr None
           | Some u \<Rightarrow> (case u r of None \<Rightarrow> Inl UnparseError | Some s \<Rightarrow> Inr (Some s))))"

definition extract_function_info ::
    "unparse_fn \<Rightarrow> string \<Rightarrow> arguments \<Rightarrow> stmt list \<Rightarrow> expr option \<Rightarrow> string option
      \<Rightarrow> error + function_info" where
  \<comment> \<open>\<^verbatim>\<open>_extract_function_info(node, class_name)\<close> with \<^verbatim>\<open>node.name\<close>, \<^verbatim>\<open>node.args\<close>,
      \<^verbatim>\<open>node.body\<close> and \<^verbatim>\<open>node.returns\<close> as arguments\<close>
  "extract_function_info unparse nm a body ret cls =
     (let doc = get_docstring body;
          has_doc = (case doc of None \<Rightarrow> False | Some d \<Rightarrow> d \<noteq> [])
      in case defaults_loop (int (length (args a)) - int (length (defaults a))) (defaults a)
                (collect_args unparse a) of
           Inl e \<Rightarrow> Inl e
         | Inr info \<Rightarrow>
             (let baseline = generate_baseline_docstring nm info cls in
              case render_returns unparse ret of
                Inl e \<Rightarrow> Inl e
              | Inr rt \<Rightarrow>
                  Inr \<lparr>name = nm, class_name = cls, has_docstring = has_doc, docstring = doc,
                       info_args = info, return_type = rt, baseline_docstring = baseline\<rparr>))"

subsection \<open>The visitor\<close>

text \<open>
  The state of an \<^verbatim>\<open>ASTAnalyzer\<close> instance, as \<^verbatim>\<open>__init__\<close> declares it. The visitor
  methods mutate it; the model passes it through and returns it updated, or the
  exception that \<^verbatim>\<open>_extract_function_info\<close> raised.
\<close>

record ASTAnalyzer =
  classes :: "string list"
  "functions" :: "string list"
  methods :: "string list"
  function_details :: "function_info list"
  method_details :: "function_info list"
  functions_with_docstrings :: nat
  functions_without_docstrings :: nat
  methods_with_docstrings :: nat
  methods_without_docstrings :: nat

definition ASTAnalyzer_init :: ASTAnalyzer where
  "ASTAnalyzer_init =
     \<lparr>classes = [], functions = [], methods = [], function_details = [], method_details = [],
      functions_with_docstrings = 0, functions_without_docstrings = 0,
      methods_with_docstrings = 0, methods_without_docstrings = 0\<rparr>"

text \<open>
  \<^verbatim>\<open>ast.walk(node)\<close> yields \<^verbatim>\<open>node\<close> and every node below it. Only statements can be
  \<^verbatim>\<open>ClassDef\<close> nodes, so \<open>walk_has_ClassDef s\<close> is
  \<^verbatim>\<open>any(isinstance(parent, ast.ClassDef) for parent in ast.walk(s))\<close>.
\<close>

fun walk_has_ClassDef :: "stmt \<Rightarrow> bool" where
  "walk_has_ClassDef (ClassDef nm body) = True"
| "walk_has_ClassDef (FunctionDef nm a body ret) = list_ex walk_has_ClassDef body"
| "walk_has_ClassDef (AsyncFunctionDef nm a body ret) = list_ex walk_has_ClassDef body"
| "walk_has_ClassDef (Expr e) = False"
| "walk_has_ClassDef (OtherStmt body) = list_ex walk_has_ClassDef body"

definition record_method :: "string \<Rightarrow> function_info \<Rightarrow> ASTAnalyzer \<Rightarrow> ASTAnalyzer" where
  \<comment> \<open>the updates of \<^verbatim>\<open>visit_ClassDef\<close> for one \<^verbatim>\<open>FunctionDef\<close> item of the class body\<close>
  "record_method qualified method_info st =
     (let st = st\<lparr>methods := methods st @ [qualified]\<rparr>;
          st = st\<lparr>method_details := method_details st @ [method_info]\<rparr>
      in if has_docstring method_info
         then st\<lparr>methods_with_docstrings := methods_with_docstrings st + 1\<rparr>
         else st\<lparr>methods_without_docstrings := methods_without_docstrings st + 1\<rparr>)"

definition record_function :: "string \<Rightarrow> function_info \<Rightarrow> ASTAnalyzer \<Rightarrow> ASTAnalyzer" where
  \<comment> \<open>the updates of \<^verbatim>\<open>visit_FunctionDef\<close> inside its \<^verbatim>\<open>if\<close>\<close>
  "record_function nm func_info st =
     (let st = st\<lparr>functions := functions st @ [nm]\<rparr>;
          st = st\<lparr>function_details := function_details st @ [func_info]\<rparr>
      in if has_docstring func_info
         then st\<lparr>functions_with_docstrings := functions_with_docstrings st + 1\<rparr>
         else st\<lparr>functions_without_docstrings := functions_without_docstrings st + 1\<rparr>)"

fun class_body_loop ::
    "unparse_fn \<Rightarrow> string \<Rightarrow> stmt list \<Rightarrow> ASTAnalyzer \<Rightarrow> error + ASTAnalyzer" where
  \<comment> \<open>\<^verbatim>\<open>for item in node.body: if isinstance(item, ast.FunctionDef): ...\<close>\<close>
  "class_body_loop unparse cname [] st = Inr st"
| "class_body_loop unparse cname (FunctionDef nm a body ret # rest) st =
     (case extract_function_info unparse nm a body ret (Some cname) of
        Inl e \<Rightarrow> Inl e
      | Inr method_info \<Rightarrow>
          class_body_loop unparse cname rest (record_method (cname @ ''.'' @ nm) method_info st))"
| "class_body_loop unparse cname (item # rest) st = class_body_loop unparse cname rest st"

text \<open>
  \<^verbatim>\<open>NodeVisitor.visit\<close> dispatches on the node class: \<^verbatim>\<open>visit_ClassDef\<close> and
  \<^verbatim>\<open>visit_FunctionDef\<close> for these two classes, \<^verbatim>\<open>generic_visit\<close> for every other.
  \<^verbatim>\<open>generic_visit\<close> visits the child nodes; \<open>generic_visit\<close> below runs over the
  child statements, the other children holding no class or function definition.
\<close>

fun visit :: "unparse_fn \<Rightarrow> stmt \<Rightarrow> ASTAnalyzer \<Rightarrow> error + ASTAnalyzer"
  and generic_visit :: "unparse_fn \<Rightarrow> stmt list \<Rightarrow> ASTAnalyzer \<Rightarrow> error + ASTAnalyzer" where
  "visit unparse (ClassDef nm body) st =
     (case class_body_loop unparse nm body (st\<lparr>classes := classes st @ [nm]\<rparr>) of
        Inl e \<Rightarrow> Inl e
      | Inr st' \<Rightarrow> generic_visit unparse body st')"
| "visit unparse (FunctionDef nm a body ret) st =
     (if \<not> list_ex walk_has_ClassDef body then
        (case extract_function_info unparse nm a body ret None of
           Inl e \<Rightarrow> Inl e
         | Inr func_info \<Rightarrow> generic_visit unparse body (record_function nm func_info st))
      else generic_visit unparse body st)"
| "visit unparse (AsyncFunctionDef nm a body ret) st = generic_visit unparse body st"
| "visit unparse (Expr e) st = Inr st"
| "visit unparse (OtherStmt body) st = generic_visit unparse body st"
| "generic_visit unparse [] st = Inr st"
| "generic_visit unparse (s # ss) st =
     (case visit unparse s st of
        Inl e \<Rightarrow> Inl e
      | Inr st' \<Rightarrow> generic_visit unparse ss st')"

datatype module = Module "stmt list"

fun visit_Module :: "unparse_fn \<Rightarrow> module \<Rightarrow> ASTAnalyzer \<Rightarrow> error + ASTAnalyzer" where
  "visit_Module unparse (Module body) st = generic_visit unparse body st"

section \<open>\<^verbatim>\<open>count_all_comments\<close>\<close>

text \<open>
  \<^verbatim>\<open>tokenize.generate_tokens\<close> is a generator of the standard library: it yields tokens
  and either ends or raises after some of them. Its run on the source text is a
  parameter: the tokens it yielded, and whether it then raised. A token has a type, of
  which the function tells \<^verbatim>\<open>COMMENT\<close> and \<^verbatim>\<open>STRING\<close> from the rest, and its text.
\<close>

datatype token_type = COMMENT | STRING | OTHER

record token =
  tok_type :: token_type
  tok_string :: string

datatype tokenize_outcome = Completed "token list" | Raised "token list"

definition is_triple_quoted :: "string \<Rightarrow> bool" where
  "is_triple_quoted token_str =
     ((startswith token_str DQ3 \<and> endswith token_str DQ3) \<or>
      (startswith token_str SQ3 \<and> endswith token_str SQ3))"

text \<open>The three counters are the triple (single-line, multi-line, docstring lines).\<close>

definition count_token :: "token \<Rightarrow> nat \<times> nat \<times> nat \<Rightarrow> nat \<times> nat \<times> nat" where
  \<comment> \<open>the body of \<^verbatim>\<open>for token in tokens\<close>\<close>
  "count_token t c =
     (case c of (single_line, multi_line, doc_lines) \<Rightarrow>
        if tok_type t = COMMENT then (single_line + 1, multi_line, doc_lines)
        else if tok_type t = STRING then
          (let token_str = strip (tok_string t) in
           if is_triple_quoted token_str then
             (let lines = str_split (CHR 0x0A) (tok_string t);
                  multi_line = multi_line + length lines;
                  content = strip (slice_3_minus3 token_str)
              in if content = [] then (single_line, multi_line, doc_lines)
                 else if isnumeric content then (single_line, multi_line, doc_lines)
                 else (single_line, multi_line, doc_lines + length lines))
           else (single_line, multi_line, doc_lines))
        else (single_line, multi_line, doc_lines))"

fun token_loop :: "token list \<Rightarrow> nat \<times> nat \<times> nat \<Rightarrow> nat \<times> nat \<times> nat" where
  "token_loop [] c = c"
| "token_loop (t # ts) c = token_loop ts (count_token t c)"

definition count_line :: "string \<Rightarrow> nat \<times> nat \<times> nat \<Rightarrow> nat \<times> nat \<times> nat" where
  \<comment> \<open>the body of the fallback's \<^verbatim>\<open>for line in source_code.splitlines()\<close>\<close>
  "count_line line c =
     (case c of (single_line, multi_line, doc_lines) \<Rightarrow>
        (let stripped = strip line in
         if startswith stripped ''#'' then (single_line + 1, multi_line, doc_lines)
         else if startswith stripped DQ3 \<or> startswith stripped SQ3
           then (single_line, multi_line + 1, doc_lines)
         else (single_line, multi_line, doc_lines)))"

fun line_loop :: "string list \<Rightarrow> nat \<times> nat \<times> nat \<Rightarrow> nat \<times> nat \<times> nat" where
  "line_loop [] c = c"
| "line_loop (l # ls) c = line_loop ls (count_line l c)"

record comment_counts =
  single_line_comments :: nat
  multi_line_comments :: nat
  docstring_lines :: nat
  total_comments :: nat

definition count_all_comments :: "tokenize_outcome \<Rightarrow> string \<Rightarrow> comment_counts" where
  \<comment> \<open>the \<^verbatim>\<open>except\<close> branch starts from the counters as the \<^verbatim>\<open>try\<close> block left them\<close>
  "count_all_comments tokens source_code =
     (case (case tokens of
              Completed ts \<Rightarrow> token_loop ts (0, 0, 0)
            | Raised ts \<Rightarrow> line_loop (splitlines source_code) (token_loop ts (0, 0, 0)))
      of (single_line, multi_line, doc_lines) \<Rightarrow>
        \<lparr>single_line_comments = single_line, multi_line_comments = multi_line,
         docstring_lines = doc_lines, total_comments = single_line + multi_line\<rparr>)"

section \<open>\<^verbatim>\<open>analyze_python_code\<close>\<close>

text \<open>
  The keys of the report and of its \<^verbatim>\<open>counts\<close> dict carry the prefixes \<open>report_\<close> and
  \<open>counts_\<close>. \<^verbatim>\<open>docstring_coverage\<close> is a Python float (the int \<^verbatim>\<open>0\<close> when there are no
  callables); the model computes the quotient in \<^typ>\<open>real\<close>.
\<close>

record counts =
  counts_total_modules :: nat
  counts_total_classes :: nat
  counts_total_functions :: nat
  counts_total_methods :: nat
  counts_total_comments :: nat
  counts_single_line_comments :: nat
  counts_multi_line_comments :: nat
  counts_docstring_lines :: nat
  counts_functions_with_docstrings :: nat
  counts_functions_without_docstrings :: nat
  counts_methods_with_docstrings :: nat
  counts_methods_without_docstrings :: nat
  counts_total_with_docstrings :: nat
  counts_total_without_docstrings :: nat
  counts_docstring_coverage :: real

record report =
  report_modules :: nat
  report_classes :: "string list"
  report_functions :: "string list"
  report_methods :: "string list"
  report_function_details :: "function_info list"
  report_method_details :: "function_info list"
  report_counts :: counts

definition build_report :: "ASTAnalyzer \<Rightarrow> comment_counts \<Rightarrow> report" where
  \<comment> \<open>the dict literal \<^verbatim>\<open>report = {...}\<close> with the three totals computed before it\<close>
  "build_report analyzer cc =
     (let total_functions_and_methods =
            length (function_details analyzer) + length (method_details analyzer);
          total_with_docstrings =
            functions_with_docstrings analyzer + methods_with_docstrings analyzer;
          total_without_docstrings =
            functions_without_docstrings analyzer + methods_without_docstrings analyzer
      in \<lparr>report_modules = 1,
          report_classes = classes analyzer,
          report_functions = functions analyzer,
          report_methods = methods analyzer,
          report_function_details = function_details analyzer,
          report_method_details = method_details analyzer,
          report_counts =
            \<lparr>counts_total_modules = 1,
             counts_total_classes = length (classes analyzer),
             counts_total_functions = length (functions analyzer),
             counts_total_methods = length (methods analyzer),
             counts_total_comments = total_comments cc,
             counts_single_line_comments = single_line_comments cc,
             counts_multi_line_comments = multi_line_comments cc,
             counts_docstring_lines = docstring_lines cc,
             counts_functions_with_docstrings = functions_with_docstrings analyzer,
             counts_functions_without_docstrings = functions_without_docstrings analyzer,
             counts_methods_with_docstrings = methods_with_docstrings analyzer,
             counts_methods_without_docstrings = methods_without_docstrings analyzer,
             counts_total_with_docstrings = total_with_docstrings,
             counts_total_without_docstrings = total_without_docstrings,
             counts_docstring_coverage =
               (if total_functions_and_methods > 0
                then real total_with_docstrings / real total_functions_and_methods * 100
                else 0)\<rparr>\<rparr>)"

text \<open>
  \<^verbatim>\<open>ast.parse(source_code)\<close> is the standard library's parser: its outcome on the source
  text is a parameter, \<open>Inl msg\<close> for a \<^verbatim>\<open>SyntaxError\<close> with message \<open>msg\<close> and
  \<open>Inr tree\<close> for the module it returns. The exception leaves the function at once.
\<close>

definition analyze_python_code ::
    "unparse_fn \<Rightarrow> string + module \<Rightarrow> tokenize_outcome \<Rightarrow> string \<Rightarrow> error + report" where
  "analyze_python_code unparse parsed tokens source_code =
     (case parsed of
        Inl msg \<Rightarrow> Inl (SyntaxError msg)
      | Inr tree \<Rightarrow>
          (case visit_Module unparse tree ASTAnalyzer_init of
             Inl e \<Rightarrow> Inl e
           | Inr analyzer \<Rightarrow>
               (let comment_counts = count_all_comments tokens source_code
                in Inr (build_report analyzer comment_counts))))"

section \<open>The specification's notions\<close>

subsection \<open>The baseline template\<close>

text \<open>
  The specification's description of the baseline docstring, line by line: the callable
  name; then, unless there is no parameter, a blank line, \<^verbatim>\<open>Args:\<close> and one line per
  parameter descriptor in list order; then a blank line and the \<^verbatim>\<open>Returns:\<close> section
  with its placeholder.
\<close>

definition spec_arg_line :: "arg_info \<Rightarrow> string" where
  "spec_arg_line p =
     (if arg_vararg p = Some True then
        ''    *'' @ arg_name p @ '' ('' @ arg_type p @ ''): Variable positional arguments''
      else if arg_kwargs p = Some True then
        ''    **'' @ arg_name p @ '' ('' @ arg_type p @ ''): Variable keyword arguments''
      else ''    '' @ arg_name p @ '' ('' @ arg_type p @ ''): Description of '' @ arg_name p)"

definition spec_returns_section :: "string list" where
  "spec_returns_section = [''Returns:'', ''    Any: Description of return value'']"

definition spec_baseline_lines :: "string \<Rightarrow> arg_info list \<Rightarrow> string list" where
  "spec_baseline_lines nm ps =
     [nm] @ (if ps = [] then [] else ['''', ''Args:''] @ map spec_arg_line ps) @
     [''''] @ spec_returns_section"

subsection \<open>Documentation strings\<close>

definition first_string_literal :: "stmt list \<Rightarrow> string option" where
  \<comment> \<open>the value of the literal when the first statement of a body is a bare string-literal
      expression\<close>
  "first_string_literal body =
     (case body of
        [] \<Rightarrow> None
      | s # rest \<Rightarrow>
          (case s of
             Expr e \<Rightarrow> (case e of Constant c \<Rightarrow> (case c of Str text \<Rightarrow> Some text | NonStr v \<Rightarrow> None)
                        | _ \<Rightarrow> None)
           | _ \<Rightarrow> None))"

subsection \<open>Tokens of the comment statistics\<close>

definition is_comment :: "token \<Rightarrow> bool" where
  "is_comment t = (tok_type t = COMMENT)"

definition spans_lines :: "token \<Rightarrow> nat" where
  \<comment> \<open>the number of lines the token's text spans\<close>
  "spans_lines t = length (str_split (CHR 0x0A) (tok_string t))"

definition triple_quoted_literal :: "token \<Rightarrow> bool" where
  \<comment> \<open>a string-literal token whose trimmed text begins and ends with the same triple-quote
      delimiter\<close>
  "triple_quoted_literal t = (tok_type t = STRING \<and> is_triple_quoted (strip (tok_string t)))"

definition inner_content :: "token \<Rightarrow> string" where
  \<comment> \<open>the trimmed text without its first three and last three characters\<close>
  "inner_content t = slice_3_minus3 (strip (tok_string t))"

definition documentation_like :: "token \<Rightarrow> bool" where
  \<comment> \<open>the inner content, trimmed of surrounding whitespace, is non-empty and not purely
      numeric\<close>
  "documentation_like t =
     (triple_quoted_literal t \<and> strip (inner_content t) \<noteq> [] \<and>
      \<not> isnumeric (strip (inner_content t)))"

definition documentation_like_untrimmed :: "token \<Rightarrow> bool" where
  \<comment> \<open>the same test on the inner content as the quotes leave it\<close>
  "documentation_like_untrimmed t =
     (triple_quoted_literal t \<and> inner_content t \<noteq> [] \<and> \<not> isnumeric (inner_content t))"

subsection \<open>What the extractor lists and the visitor records\<close>

text \<open>
  The parameters \<^verbatim>\<open>_extract_function_info\<close> reads from an \<^verbatim>\<open>arguments\<close> node, in the
  order of its four blocks; and the names the visitor appends to \<^verbatim>\<open>functions\<close> and to
  \<^verbatim>\<open>methods\<close> on a statement, read off the tree.
\<close>

definition listed_parameters :: "arguments \<Rightarrow> arg list" where
  "listed_parameters a = args a @ kwonlyargs a @ (case vararg a of None \<Rightarrow> [] | Some v \<Rightarrow> [v]) @
     (case kwarg a of None \<Rightarrow> [] | Some k \<Rightarrow> [k])"

fun direct_methods :: "string \<Rightarrow> stmt list \<Rightarrow> string list" where
  "direct_methods cname [] = []"
| "direct_methods cname (FunctionDef nm a body ret # rest) =
     (cname @ ''.'' @ nm) # direct_methods cname rest"
| "direct_methods cname (item # rest) = direct_methods cname rest"

fun recorded_functions :: "stmt \<Rightarrow> string list"
  and recorded_functions_list :: "stmt list \<Rightarrow> string list" where
  "recorded_functions (ClassDef nm body) = recorded_functions_list body"
| "recorded_functions (FunctionDef nm a body ret) =
     (if list_ex walk_has_ClassDef body then [] else [nm]) @ recorded_functions_list body"
| "recorded_functions (AsyncFunctionDef nm a body ret) = recorded_functions_list body"
| "recorded_functions (Expr e) = []"
| "recorded_functions (OtherStmt body) = recorded_functions_list body"
| "recorded_functions_list [] = []"
| "recorded_functions_list (s # ss) = recorded_functions s @ recorded_functions_list ss"

fun recorded_methods :: "stmt \<Rightarrow> string list"
  and recorded_methods_list :: "stmt list \<Rightarrow> string list" where
  "recorded_methods (ClassDef nm body) = direct_methods nm body @ recorded_methods_list body"
| "recorded_methods (FunctionDef nm a body ret) = recorded_methods_list body"
| "recorded_methods (AsyncFunctionDef nm a body ret) = recorded_methods_list body"
| "recorded_methods (Expr e) = []"
| "recorded_methods (OtherStmt body) = recorded_methods_list body"
| "recorded_methods_list [] = []"
| "recorded_methods_list (s # ss) = recorded_methods s @ recorded_methods_list ss"

subsection \<open>The order of \<^verbatim>\<open>ast.walk\<close>\<close>





subsection \<open>An invariant of the visitor\<close>

definition counters_ok :: "ASTAnalyzer \<Rightarrow> bool" where
  "counters_ok st =
     (length (function_details st) =
        functions_with_docstrings st + functions_without_docstrings st \<and>
      length (method_details st) =
        methods_with_docstrings st + methods_without_docstrings st)"

subsection \<open>Example inputs\<close>

definition py39 :: unparse_fn where
  \<comment> \<open>an interpreter with \<^verbatim>\<open>ast.unparse\<close>; the examples carry no annotation, so no
      rendering is ever asked of it\<close>
  "py39 = Some (\<lambda>e. Some (annotation_to_string e))"

definition plain :: "string \<Rightarrow> arg" where
  \<comment> \<open>a parameter without annotation\<close>
  "plain nm = \<lparr>arg = nm, annotation = None\<rparr>"

definition no_arguments :: arguments where
  \<comment> \<open>the \<^verbatim>\<open>arguments\<close> node of \<^verbatim>\<open>def f(): ...\<close>\<close>
  "no_arguments =
     \<lparr>posonlyargs = [], args = [], vararg = None, kwonlyargs = [], kw_defaults = [],
      kwarg = None, defaults = []\<rparr>"

definition pass_stmt :: stmt where
  \<comment> \<open>the statement \<^verbatim>\<open>pass\<close>\<close>
  "pass_stmt = OtherStmt []"

definition other_token :: "string \<Rightarrow> token" where
  \<comment> \<open>a token that is neither a comment nor a string literal\<close>
  "other_token s = \<lparr>tok_type = OTHER, tok_string = s\<rparr>"

definition string_token :: "string \<Rightarrow> token" where
  "string_token s = \<lparr>tok_type = STRING, tok_string = s\<rparr>"

definition comment_token :: "string \<Rightarrow> token" where
  "comment_token s = \<lparr>tok_type = COMMENT, tok_string = s\<rparr>"

section \<open>Auxiliary facts\<close>

subsection \<open>The baseline lines\<close>

lemma get_flag_Some_True: "get_flag v = (v = Some True)"
  by (cases v) (auto simp: get_flag_def)

lemma arg_line_spec: "arg_line p = spec_arg_line p"
  by (simp add: arg_line_def spec_arg_line_def get_flag_Some_True Let_def)

lemma append_arg_lines_map: "append_arg_lines ps lines = lines @ map arg_line ps"
  by (induction ps arbitrary: lines) simp_all

lemma baseline_lines_spec: "baseline_lines nm ps = spec_baseline_lines nm ps"
  by (simp add: baseline_lines_def spec_baseline_lines_def spec_returns_section_def
      append_arg_lines_map arg_line_spec Let_def)

lemma generate_baseline_docstring_template:
  "generate_baseline_docstring nm ps cls = str_join NL (spec_baseline_lines nm ps)"
  by (simp add: generate_baseline_docstring_def baseline_lines_spec)

lemma str_join_append:
  "xs \<noteq> [] \<Longrightarrow> ys \<noteq> [] \<Longrightarrow> str_join sep (xs @ ys) = str_join sep xs @ sep @ str_join sep ys"
proof (induction sep xs rule: str_join.induct)
  case (1 sep)
  then show ?case by simp
next
  case (2 sep x)
  then show ?case by (cases ys) simp_all
next
  case (3 sep x y zs)
  then show ?case by simp
qed

lemma extract_baseline:
  "extract_function_info unparse nm a body ret cls = Inr info \<Longrightarrow>
     baseline_docstring info = generate_baseline_docstring nm (info_args info) cls"
  by (auto simp: extract_function_info_def Let_def split: sum.splits)

lemma extract_docstring:
  "extract_function_info unparse nm a body ret cls = Inr info \<Longrightarrow>
     docstring info = get_docstring body \<and>
     has_docstring info = (case get_docstring body of None \<Rightarrow> False | Some d \<Rightarrow> d \<noteq> [])"
  by (auto simp: extract_function_info_def Let_def split: sum.splits)

lemma get_docstring_first_literal:
  "get_docstring body = map_option cleandoc (first_string_literal body)"
  by (simp add: get_docstring_def first_string_literal_def
      split: list.splits stmt.splits expr.splits const_value.splits)

subsection \<open>The counters of the comment statistics\<close>

lemma count_token_increments:
  "count_token t (s, m, d) =
     (s + (if is_comment t then 1 else 0),
      m + (if triple_quoted_literal t then spans_lines t else 0),
      d + (if documentation_like t then spans_lines t else 0))"
  by (cases "tok_type t")
    (simp_all add: count_token_def is_comment_def triple_quoted_literal_def
      documentation_like_def inner_content_def spans_lines_def Let_def)

lemma token_loop_sums:
  "token_loop ts (s, m, d) =
     (s + length (filter is_comment ts),
      m + sum_list (map spans_lines (filter triple_quoted_literal ts)),
      d + sum_list (map spans_lines (filter documentation_like ts)))"
proof (induction ts arbitrary: s m d)
  case Nil
  then show ?case by simp
next
  case (Cons t ts)
  show ?case by (simp add: count_token_increments Cons.IH)
qed

lemma count_line_doc: "count_line l (s, m, d) = (s', m', d') \<Longrightarrow> d' = d \<and> m \<le> m'"
  by (auto simp: count_line_def Let_def split: if_splits)

lemma line_loop_doc: "line_loop ls (s, m, d) = (s', m', d') \<Longrightarrow> d' = d \<and> m \<le> m'"
proof (induction ls arbitrary: s m d)
  case Nil
  then show ?case by simp
next
  case (Cons l ls)
  obtain s1 m1 d1 where c: "count_line l (s, m, d) = (s1, m1, d1)"
    by (cases "count_line l (s, m, d)") auto
  then have "d1 = d \<and> m \<le> m1" by (rule count_line_doc)
  moreover from Cons.prems c have "line_loop ls (s1, m1, d1) = (s', m', d')" by simp
  then have "d' = d1 \<and> m1 \<le> m'" by (rule Cons.IH)
  ultimately show ?case by auto
qed

lemma total_is_sum:
  "total_comments (count_all_comments tokens src) =
     single_line_comments (count_all_comments tokens src) +
     multi_line_comments (count_all_comments tokens src)"
  by (simp add: count_all_comments_def split: prod.splits tokenize_outcome.splits)

lemma filter_documentation_like_le:
  "sum_list (map spans_lines (filter documentation_like ts))
     \<le> sum_list (map spans_lines (filter triple_quoted_literal ts))"
  by (induction ts) (auto simp: documentation_like_def)

subsection \<open>The counters of the visitor\<close>

text \<open>
  Every append to \<^verbatim>\<open>function_details\<close> or \<^verbatim>\<open>method_details\<close> comes with one
  increment of a with- or without-docstring counter.
\<close>


lemma counters_ok_init: "counters_ok ASTAnalyzer_init"
  by (simp add: counters_ok_def ASTAnalyzer_init_def)

lemma counters_ok_record_method: "counters_ok st \<Longrightarrow> counters_ok (record_method q i st)"
  by (simp add: counters_ok_def record_method_def Let_def)

lemma counters_ok_record_function: "counters_ok st \<Longrightarrow> counters_ok (record_function q i st)"
  by (simp add: counters_ok_def record_function_def Let_def)

lemma counters_ok_classes: "counters_ok (st\<lparr>classes := cs\<rparr>) = counters_ok st"
  by (simp add: counters_ok_def)

lemma counters_ok_class_body_loop:
  "class_body_loop u c body st = Inr st' \<Longrightarrow> counters_ok st \<Longrightarrow> counters_ok st'"
proof (induction u c body st rule: class_body_loop.induct)
  case (1 unparse cname st)
  then show ?case by simp
next
  case (2 unparse cname nm a body ret rest st)
  then show ?case
    by (auto split: sum.splits intro: counters_ok_record_method)
qed simp_all

lemma counters_ok_visit:
  shows "visit u s st = Inr st' \<Longrightarrow> counters_ok st \<Longrightarrow> counters_ok st'"
    and "generic_visit u ss st = Inr st' \<Longrightarrow> counters_ok st \<Longrightarrow> counters_ok st'"
proof (induction u s st and u ss st arbitrary: st' and st' rule: visit_generic_visit.induct)
  case (1 unparse nm body st)
  then show ?case
    by (auto split: sum.splits dest: counters_ok_class_body_loop simp: counters_ok_classes)
next
  case (2 unparse nm a body ret st)
  then show ?case
    by (auto split: sum.splits if_splits intro: counters_ok_record_function)
next
  case (7 unparse s ss st)
  then show ?case by (auto split: sum.splits)
qed simp_all

lemma analyze_counters_ok:
  assumes "analyze_python_code u p t src = Inr r"
  obtains st where "counters_ok st" and "r = build_report st (count_all_comments t src)"
proof -
  from assms obtain tree st where "p = Inr tree"
    and v: "visit_Module u tree ASTAnalyzer_init = Inr st"
    and r: "r = build_report st (count_all_comments t src)"
    by (auto simp: analyze_python_code_def Let_def split: sum.splits)
  obtain body where "tree = Module body" by (cases tree)
  with v have "generic_visit u body ASTAnalyzer_init = Inr st" by simp
  then have "counters_ok st" using counters_ok_init by (rule counters_ok_visit(2))
  then show thesis using r by (rule that)
qed

lemma ratio_bounds:
  fixes w n :: nat
  assumes "w \<le> n" and "0 < n"
  shows "0 \<le> real w / real n * 100" and "real w / real n * 100 \<le> 100"
    and "(real w / real n * 100 = 0) = (w = 0)"
proof -
  from assms show "0 \<le> real w / real n * 100" by simp
  from assms show "real w / real n * 100 \<le> 100" by (simp add: field_simps)
  from assms show "(real w / real n * 100 = 0) = (w = 0)" by simp
qed

subsection \<open>Errors of the analysis\<close>

lemma defaults_loop_no_syntax_error: "defaults_loop i ds info \<noteq> Inl (SyntaxError msg)"
  by (induction ds arbitrary: i info)
    (auto simp: set_default_at_def Let_def split: sum.splits if_splits)

lemma extract_no_syntax_error:
  "extract_function_info u nm a body ret cls \<noteq> Inl (SyntaxError msg)"
  using defaults_loop_no_syntax_error
  by (auto simp: extract_function_info_def render_returns_def Let_def
      split: sum.splits option.splits)

lemma class_body_loop_no_syntax_error: "class_body_loop u c body st \<noteq> Inl (SyntaxError msg)"
  by (induction u c body st rule: class_body_loop.induct)
    (auto split: sum.splits simp: extract_no_syntax_error)

lemma visit_no_syntax_error:
  shows "visit u s st \<noteq> Inl (SyntaxError msg)"
    and "generic_visit u ss st \<noteq> Inl (SyntaxError msg)"
  by (induction u s st and u ss st rule: visit_generic_visit.induct)
    (auto split: sum.splits simp: extract_no_syntax_error class_body_loop_no_syntax_error)

lemma analyze_syntax_error:
  "(analyze_python_code u p t src = Inl (SyntaxError msg)) = (p = Inl msg)"
proof -
  have "visit_Module u tree ASTAnalyzer_init \<noteq> Inl (SyntaxError msg)" for tree
    by (cases tree) (simp add: visit_no_syntax_error)
  then show ?thesis
    by (auto simp: analyze_python_code_def Let_def split: sum.splits)
qed

lemma render_annotation_failure:
  "u e = None \<Longrightarrow> render_annotation (Some u) (Some e) = ''Any''"
  by (simp add: render_annotation_def)

lemma analyze_empty_input:
  "analyze_python_code u (Inr (Module [])) (Completed [other_token []]) [] =
     Inr (build_report ASTAnalyzer_init
       \<lparr>single_line_comments = 0, multi_line_comments = 0, docstring_lines = 0,
        total_comments = 0\<rparr>)"
  by (simp add: analyze_python_code_def count_all_comments_def count_token_def other_token_def)

subsection \<open>The parameter list\<close>

lemma set_default_at_nonneg:
  "0 \<le> i \<Longrightarrow>
     set_default_at i info =
       Inr (if nat i < length info then info[nat i := (info ! nat i)\<lparr>arg_default := True\<rparr>]
            else info)"
  by (auto simp: set_default_at_def Let_def)

lemma defaults_loop_nonneg:
  "0 \<le> i \<Longrightarrow>
     \<exists>info'. defaults_loop i ds info = Inr info' \<and> length info' = length info \<and>
       (\<forall>j < length info.
          info' ! j =
            (if nat i \<le> j \<and> j < nat i + length ds then (info ! j)\<lparr>arg_default := True\<rparr>
             else info ! j))"
proof (induction ds arbitrary: i info)
  case Nil
  then show ?case by auto
next
  case (Cons d ds)
  let ?info1 = "if nat i < length info then info[nat i := (info ! nat i)\<lparr>arg_default := True\<rparr>]
            else info"
  from Cons.prems have s: "set_default_at i info = Inr ?info1"
    by (rule set_default_at_nonneg)
  from Cons.prems have "0 \<le> i + 1" by simp
  from Cons.IH[OF this, of ?info1] obtain info' where
    l: "defaults_loop (i + 1) ds ?info1 = Inr info'" and len: "length info' = length ?info1"
    and nth: "\<forall>j < length ?info1. info' ! j =
            (if nat (i + 1) \<le> j \<and> j < nat (i + 1) + length ds
             then (?info1 ! j)\<lparr>arg_default := True\<rparr> else ?info1 ! j)"
    by blast
  have n1: "nat (i + 1) = Suc (nat i)" using Cons.prems by simp
  have "defaults_loop i (d # ds) info = Inr info'" using s l by simp
  moreover have "length info' = length info" using len by simp
  moreover have "\<forall>j < length info. info' ! j =
            (if nat i \<le> j \<and> j < nat i + length (d # ds)
             then (info ! j)\<lparr>arg_default := True\<rparr> else info ! j)"
  proof (intro allI impI)
    fix j assume j: "j < length info"
    then have "j < length ?info1" by simp
    with nth have e: "info' ! j =
            (if Suc (nat i) \<le> j \<and> j < Suc (nat i) + length ds
             then (?info1 ! j)\<lparr>arg_default := True\<rparr> else ?info1 ! j)"
      by (simp add: n1)
    show "info' ! j =
            (if nat i \<le> j \<and> j < nat i + length (d # ds)
             then (info ! j)\<lparr>arg_default := True\<rparr> else info ! j)"
    proof (cases "j = nat i")
      case True
      with j e show ?thesis by simp
    next
      case False
      with j e show ?thesis by (auto simp: nth_list_update)
    qed
  qed
  ultimately show ?case by blast
qed

lemma set_default_at_keeps:
  "set_default_at i info = Inr info' \<Longrightarrow>
     map arg_name info' = map arg_name info \<and> map arg_type info' = map arg_type info \<and>
     map arg_vararg info' = map arg_vararg info \<and> map arg_kwargs info' = map arg_kwargs info"
  by (auto simp: set_default_at_def Let_def map_update list_update_same_conv
      split: if_splits)

lemma defaults_loop_keeps:
  "defaults_loop i ds info = Inr info' \<Longrightarrow>
     map arg_name info' = map arg_name info \<and> map arg_type info' = map arg_type info \<and>
     map arg_vararg info' = map arg_vararg info \<and> map arg_kwargs info' = map arg_kwargs info"
proof (induction ds arbitrary: i info)
  case Nil
  then show ?case by simp
next
  case (Cons d ds)
  from Cons.prems obtain info1 where s: "set_default_at i info = Inr info1"
    and l: "defaults_loop (i + 1) ds info1 = Inr info'"
    by (auto split: sum.splits)
  from Cons.IH[OF l] set_default_at_keeps[OF s] show ?case by simp
qed

lemma collect_args_names: "map arg_name (collect_args u a) = map arg (listed_parameters a)"
  by (simp add: collect_args_def listed_parameters_def positional_info_def kwonly_info_def
      vararg_info_def kwarg_info_def comp_def split: option.splits)

lemma collect_args_vararg:
  "map arg_vararg (collect_args u a) =
     replicate (length (args a) + length (kwonlyargs a)) None @
     (case vararg a of None \<Rightarrow> [] | Some v \<Rightarrow> [Some True]) @
     (case kwarg a of None \<Rightarrow> [] | Some k \<Rightarrow> [None])"
  by (simp add: collect_args_def positional_info_def kwonly_info_def
      vararg_info_def kwarg_info_def comp_def replicate_add map_replicate_const
      split: option.splits)

lemma collect_args_kwargs:
  "map arg_kwargs (collect_args u a) =
     replicate (length (args a) + length (kwonlyargs a)) None @
     (case vararg a of None \<Rightarrow> [] | Some v \<Rightarrow> [None]) @
     (case kwarg a of None \<Rightarrow> [] | Some k \<Rightarrow> [Some True])"
  by (simp add: collect_args_def positional_info_def kwonly_info_def
      vararg_info_def kwarg_info_def comp_def replicate_add map_replicate_const
      split: option.splits)

lemma collect_args_default:
  "j < length (collect_args u a) \<Longrightarrow>
     arg_default (collect_args u a ! j) =
       (length (args a) \<le> j \<and> j < length (args a) + length (kwonlyargs a))"
  by (auto simp: collect_args_def nth_append positional_info_def kwonly_info_def
      vararg_info_def kwarg_info_def split: option.splits)

lemma extract_info_args:
  "extract_function_info u nm a body ret cls = Inr info \<Longrightarrow>
     defaults_loop (int (length (args a)) - int (length (defaults a))) (defaults a)
       (collect_args u a) = Inr (info_args info)"
  by (auto simp: extract_function_info_def Let_def split: sum.splits)

lemma info_args_names_and_flags:
  assumes "extract_function_info u nm a body ret cls = Inr info"
  shows "map arg_name (info_args info) = map arg (listed_parameters a)"
    and "map arg_vararg (info_args info) =
     replicate (length (args a) + length (kwonlyargs a)) None @
     (case vararg a of None \<Rightarrow> [] | Some v \<Rightarrow> [Some True]) @
     (case kwarg a of None \<Rightarrow> [] | Some k \<Rightarrow> [None])"
    and "map arg_kwargs (info_args info) =
     replicate (length (args a) + length (kwonlyargs a)) None @
     (case vararg a of None \<Rightarrow> [] | Some v \<Rightarrow> [None]) @
     (case kwarg a of None \<Rightarrow> [] | Some k \<Rightarrow> [Some True])"
  using defaults_loop_keeps[OF extract_info_args[OF assms]]
  by (simp_all add: collect_args_names collect_args_vararg collect_args_kwargs)

lemma info_args_default_flags:
  assumes e: "extract_function_info u nm a body ret cls = Inr info"
    and k: "length (defaults a) \<le> length (args a)"
    and j: "j < length (info_args info)"
  shows "arg_default (info_args info ! j) =
     ((length (args a) - length (defaults a) \<le> j \<and> j < length (args a)) \<or>
      (length (args a) \<le> j \<and> j < length (args a) + length (kwonlyargs a)))"
proof -
  let ?i = "int (length (args a)) - int (length (defaults a))"
  from k have i0: "0 \<le> ?i" by simp
  from k have ni: "nat ?i = length (args a) - length (defaults a)" by simp
  from defaults_loop_nonneg[OF i0, of "defaults a" "collect_args u a"]
    extract_info_args[OF e]
  have len: "length (info_args info) = length (collect_args u a)"
    and nth: "\<forall>j < length (collect_args u a). info_args info ! j =
            (if nat ?i \<le> j \<and> j < nat ?i + length (defaults a)
             then (collect_args u a ! j)\<lparr>arg_default := True\<rparr> else collect_args u a ! j)"
    by auto
  from j len have j': "j < length (collect_args u a)" by simp
  from nth j' have "arg_default (info_args info ! j) =
      ((nat ?i \<le> j \<and> j < nat ?i + length (defaults a)) \<or> arg_default (collect_args u a ! j))"
    by auto
  with k show ?thesis by (auto simp: ni collect_args_default[OF j'])
qed

lemma extract_returns_without_positional_only:
  assumes "length (defaults a) \<le> length (args a)"
    and "render_returns u ret \<noteq> Inl UnparseError"
  shows "\<exists>info. extract_function_info u nm a body ret cls = Inr info"
proof -
  let ?i = "int (length (args a)) - int (length (defaults a))"
  from assms have i0: "0 \<le> ?i" by simp
  from defaults_loop_nonneg[OF i0, of "defaults a" "collect_args u a"]
  obtain info' where "defaults_loop ?i (defaults a) (collect_args u a) = Inr info'" by blast
  moreover from assms(2) obtain rt where "render_returns u ret = Inr rt"
    by (cases "render_returns u ret") (auto simp: render_returns_def split: option.splits)
  ultimately show ?thesis by (simp add: extract_function_info_def Let_def)
qed

subsection \<open>The names the visitor records\<close>

lemma class_body_loop_lists:
  "class_body_loop u c body st = Inr st' \<Longrightarrow>
     functions st' = functions st \<and> methods st' = methods st @ direct_methods c body"
proof (induction u c body st rule: class_body_loop.induct)
  case (1 unparse cname st)
  then show ?case by simp
next
  case (2 unparse cname nm a body ret rest st)
  then show ?case
    by (auto split: sum.splits simp: record_method_def Let_def)
qed simp_all

lemma record_function_lists:
  "functions (record_function nm i st) = functions st @ [nm] \<and>
   methods (record_function nm i st) = methods st"
  by (simp add: record_function_def Let_def)

lemma visit_lists:
  shows "visit u s st = Inr st' \<Longrightarrow>
           functions st' = functions st @ recorded_functions s \<and>
           methods st' = methods st @ recorded_methods s"
    and "generic_visit u ss st = Inr st' \<Longrightarrow>
           functions st' = functions st @ recorded_functions_list ss \<and>
           methods st' = methods st @ recorded_methods_list ss"
proof (induction u s st and u ss st arbitrary: st' and st' rule: visit_generic_visit.induct)
  case (1 unparse nm body st)
  from "1.prems" obtain st1 where
    c: "class_body_loop unparse nm body (st\<lparr>classes := classes st @ [nm]\<rparr>) = Inr st1"
    and g: "generic_visit unparse body st1 = Inr st'"
    by (auto split: sum.splits)
  from class_body_loop_lists[OF c] have
    "functions st1 = functions st" "methods st1 = methods st @ direct_methods nm body"
    by simp_all
  with "1.IH"[OF c g] show ?case by simp
next
  case (2 unparse nm a body ret st)
  show ?case
  proof (cases "list_ex walk_has_ClassDef body")
    case True
    with "2.prems" have g: "generic_visit unparse body st = Inr st'" by simp
    have n: "\<not> \<not> list_ex walk_has_ClassDef body" using True by simp
    from "2.IH"(2)[OF n g] True show ?thesis by simp
  next
    case False
    with "2.prems" obtain func_info where
      e: "extract_function_info unparse nm a body ret None = Inr func_info"
      and g: "generic_visit unparse body (record_function nm func_info st) = Inr st'"
      by (auto split: sum.splits)
    from "2.IH"(1)[OF False e g] False show ?thesis
      by (simp add: record_function_lists)
  qed
next
  case (3 unparse nm a body ret st)
  then show ?case by simp
next
  case (4 unparse e st)
  then show ?case by simp
next
  case (5 unparse body st)
  then show ?case by simp
next
  case (6 unparse st)
  then show ?case by simp
next
  case (7 unparse s ss st)
  from "7.prems" obtain st1 where v: "visit unparse s st = Inr st1"
    and g: "generic_visit unparse ss st1 = Inr st'"
    by (auto split: sum.splits)
  from "7.IH"(1)[OF v] "7.IH"(2)[OF v g] show ?case by simp
qed

subsection \<open>The visitor under any order of \<^verbatim>\<open>ast.walk\<close>\<close>





section \<open>The claims\<close>

subsection \<open>C1: the report category of a function definition\<close>

text \<open>
  C1 says that every function definition falls into exactly one category: a method of
  its class when it stands directly in a class body, a top-level function when it is
  nested in no class and no function, and no entry at all when it is nested in another
  function. \<^verbatim>\<open>visit_FunctionDef\<close> carries the comment ``Count only top-level functions
  (exclude methods)'', but its test walks the nodes below the function, not those above
  it, and \<^verbatim>\<open>visit_ClassDef\<close> ends in \<^verbatim>\<open>generic_visit\<close>, which reaches the methods
  again. The theorem runs the analysis on
  \<^verbatim>\<open>class C:\<close> / \<^verbatim>\<open>    def m(self): pass\<close> and on
  \<^verbatim>\<open>def f():\<close> / \<^verbatim>\<open>    def g(): pass\<close>: the method \<open>m\<close> is reported as a method and as a
  top-level function, and the nested function \<open>g\<close> is reported as a top-level function.
\<close>

theorem method_and_nested_function_reported_as_functions:
  "map_sum id (\<lambda>r. (report_functions r, report_methods r))
     (analyze_python_code py39
        (Inr (Module [ClassDef ''C''
           [FunctionDef ''m'' (no_arguments\<lparr>args := [plain ''self'']\<rparr>) [pass_stmt] None]]))
        (Completed (map other_token
           [''class'', ''C'', '':'', NL, ''    '', ''def'', ''m'', ''('', ''self'', '')'', '':'',
            ''pass'', NL, [], []]))
        (''class C:'' @ NL @ ''    def m(self): pass'' @ NL))
     = Inr ([''m''], [''C.m'']) \<and>
   map_sum id (\<lambda>r. (report_functions r, report_methods r))
     (analyze_python_code py39
        (Inr (Module [FunctionDef ''f'' no_arguments
           [FunctionDef ''g'' no_arguments [pass_stmt] None] None]))
        (Completed (map other_token
           [''def'', ''f'', ''('', '')'', '':'', NL, ''    '', ''def'', ''g'', ''('', '')'', '':'',
            ''pass'', NL, [], []]))
        (''def f():'' @ NL @ ''    def g(): pass'' @ NL))
     = Inr ([''f'', ''g''], [])"
  by code_simp

subsection \<open>C2: which parameters carry the default flag\<close>

text \<open>
  C2 says that the default flag is true for exactly the last K positional parameters
  (K the number of default expressions) and for every keyword-only parameter, and that
  the two variadic parameters never carry it. The defaults loop starts at
  \<^verbatim>\<open>len(node.args.args) - len(node.args.defaults)\<close>, and \<^verbatim>\<open>node.args.defaults\<close> also
  holds the defaults of the positional-only parameters, which the function never reads:
  the start is then negative and \<^verbatim>\<open>args_info[i]\<close> addresses the list from its end. The
  theorem runs \<^verbatim>\<open>_extract_function_info\<close> on \<^verbatim>\<open>def f(a=1, /, **kw): pass\<close>: the only
  descriptor is the one of \<open>**kw\<close>, and its default flag is true.
\<close>

theorem variadic_keyword_marked_default:
  "map_sum id (\<lambda>info. map (\<lambda>p. (arg_name p, arg_default p, arg_kwargs p)) (info_args info))
     (extract_function_info py39 ''f''
        (no_arguments\<lparr>posonlyargs := [plain ''a''], kwarg := Some (plain ''kw''),
                      defaults := [Constant (NonStr ''1'')]\<rparr>)
        [pass_stmt] None None)
   = Inr [(''kw'', True, Some True)]"
  by code_simp

subsection \<open>C3: length and order of the parameter list\<close>

text \<open>
  C3 says that the descriptor list has one entry per declared positional parameter, per
  keyword-only parameter and per variadic parameter, in that order.
  \<^verbatim>\<open>_extract_function_info\<close> reads \<^verbatim>\<open>node.args.args\<close>, \<^verbatim>\<open>kwonlyargs\<close>, \<^verbatim>\<open>vararg\<close> and
  \<^verbatim>\<open>kwarg\<close>, and never \<^verbatim>\<open>node.args.posonlyargs\<close>, where the parser puts the positional
  parameters declared before a \<^verbatim>\<open>/\<close>. The theorem runs it on \<^verbatim>\<open>def f(a, /, b): pass\<close>:
  two positional parameters are declared and the list holds the one descriptor of \<open>b\<close>.
\<close>

theorem positional_only_parameter_dropped:
  "map_sum id (\<lambda>info. map arg_name (info_args info))
     (extract_function_info py39 ''f''
        (no_arguments\<lparr>posonlyargs := [plain ''a''], args := [plain ''b'']\<rparr>)
        [pass_stmt] None None)
   = Inr [''b'']"
  by code_simp

subsection \<open>C4: the documentation flag and text\<close>

text \<open>
  C4 says that the documentation flag is true exactly when the first statement of the
  body is a bare string literal, and that the text is then the literal's content with
  leading and trailing whitespace trimmed on every line. The flag is the truth value of
  the text that \<^verbatim>\<open>ast.get_docstring\<close> returns, so an empty text gives false; and the
  text is cleaned by \<^verbatim>\<open>inspect.cleandoc\<close>, which keeps trailing blanks. At
  \<^verbatim>\<open>def f(): ""\<close> the first statement is a string literal and the flag is false; at
  \<^verbatim>\<open>def f(): "a  "\<close> the text is \<^verbatim>\<open>a\<close> followed by two blanks.
\<close>

theorem empty_literal_counterexample:
  "first_string_literal [Expr (Constant (Str ''''))] = Some '''' \<and>
   map_sum id (\<lambda>info. (has_docstring info, docstring info))
     (extract_function_info py39 ''f'' no_arguments [Expr (Constant (Str ''''))] None None)
     = Inr (False, Some '''') \<and>
   map_sum id (\<lambda>info. (has_docstring info, docstring info))
     (extract_function_info py39 ''f'' no_arguments [Expr (Constant (Str ''a  ''))] None None)
     = Inr (True, Some ''a  '')"
  by code_simp

text \<open>
  C4 as amended: the documentation flag is true exactly when the first statement of the
  body is a bare string literal whose text, cleaned by \<^verbatim>\<open>inspect.cleandoc\<close>, is not empty;
  the reported text is the cleaned text of that literal (and absent when the first
  statement is no string literal).
\<close>

theorem documentation_flag_and_text:
  assumes "extract_function_info unparse nm a body ret cls = Inr info"
  shows "has_docstring info =
           (case first_string_literal body of
              None \<Rightarrow> False
            | Some text \<Rightarrow> cleandoc text \<noteq> []) \<and>
         docstring info = map_option cleandoc (first_string_literal body)"
  using extract_docstring[OF assms]
  by (simp add: get_docstring_first_literal split: option.splits)

theorem documentation_flag_and_text_witness:
  "\<exists>info. extract_function_info py39 ''m'' (no_arguments\<lparr>args := [plain ''self'']\<rparr>)
            [Expr (Constant (Str ''desc'')), pass_stmt] None (Some ''C'') = Inr info \<and>
          has_docstring info \<and> docstring info = Some ''desc''"
proof -
  let ?e = "extract_function_info py39 ''m'' (no_arguments\<lparr>args := [plain ''self'']\<rparr>)
            [Expr (Constant (Str ''desc'')), pass_stmt] None (Some ''C'')"
  have "\<not> isl ?e" by code_simp
  then obtain info where h: "?e = Inr info" by (cases ?e) auto
  have c: "cleandoc ''desc'' = ''desc''" by code_simp
  have f: "first_string_literal [Expr (Constant (Str ''desc'')), pass_stmt] = Some ''desc''"
    by code_simp
  from documentation_flag_and_text[OF h] have "has_docstring info \<and> docstring info = Some ''desc''"
    by (simp add: f c)
  with h show ?thesis by blast
qed

subsection \<open>C5: the baseline docstring\<close>

text \<open>
  C5: for every function definition the baseline docstring is computed, whether or not the
  function is documented, as the lines of the template joined by line feeds: the callable
  name; a blank line, \<^verbatim>\<open>Args:\<close> and one line per parameter descriptor in list order
  (\<^verbatim>\<open>name (type): Description of name\<close>, \<^verbatim>\<open>*name (type): Variable positional arguments\<close>
  or \<^verbatim>\<open>**name (type): Variable keyword arguments\<close>, each indented by four blanks); a blank
  line and the \<^verbatim>\<open>Returns:\<close> section. Without parameters the \<^verbatim>\<open>Args:\<close> section and its
  blank line are left out; the \<^verbatim>\<open>Returns:\<close> section always ends the text.
\<close>

theorem baseline_docstring_structure:
  assumes "extract_function_info unparse nm a body ret cls = Inr info"
  shows "baseline_docstring info = str_join NL (spec_baseline_lines nm (info_args info)) \<and>
         (info_args info = [] \<longrightarrow>
            baseline_docstring info =
              nm @ NL @ NL @ ''Returns:'' @ NL @ ''    Any: Description of return value'') \<and>
         (\<exists>front. baseline_docstring info =
              front @ NL @ NL @ ''Returns:'' @ NL @ ''    Any: Description of return value'')"
proof -
  let ?ps = "info_args info"
  let ?head = "[nm] @ (if ?ps = [] then [] else ['''', ''Args:''] @ map spec_arg_line ?ps)"
  have b: "baseline_docstring info = str_join NL (spec_baseline_lines nm ?ps)"
    using extract_baseline[OF assms] by (simp add: generate_baseline_docstring_template)
  have split: "spec_baseline_lines nm ?ps = ?head @ [''''] @ spec_returns_section"
    by (simp add: spec_baseline_lines_def)
  have "str_join NL (?head @ ([''''] @ spec_returns_section)) =
          str_join NL ?head @ NL @ str_join NL ([''''] @ spec_returns_section)"
    by (rule str_join_append) (simp_all add: spec_returns_section_def)
  also have "str_join NL ([''''] @ spec_returns_section) =
      NL @ ''Returns:'' @ NL @ ''    Any: Description of return value''"
    by (simp add: spec_returns_section_def)
  finally have tail: "baseline_docstring info =
      str_join NL ?head @ NL @ NL @ ''Returns:'' @ NL @ ''    Any: Description of return value''"
    using b split by simp
  then have "\<exists>front. baseline_docstring info =
      front @ NL @ NL @ ''Returns:'' @ NL @ ''    Any: Description of return value''"
    by blast
  moreover from tail have "?ps = [] \<longrightarrow> baseline_docstring info =
      nm @ NL @ NL @ ''Returns:'' @ NL @ ''    Any: Description of return value''"
    by simp
  ultimately show ?thesis using b by blast
qed

theorem baseline_docstring_structure_witness:
  "\<exists>info. extract_function_info py39 ''f''
            (no_arguments\<lparr>args := [plain ''a'', plain ''b''], vararg := Some (plain ''args''),
                          kwarg := Some (plain ''kw''), defaults := [Constant (NonStr ''1'')]\<rparr>)
            [pass_stmt] None None = Inr info \<and>
          baseline_docstring info =
            str_join NL [''f'', '''', ''Args:'',
              ''    a (Any): Description of a'',
              ''    b (Any): Description of b'',
              ''    *args (Any): Variable positional arguments'',
              ''    **kw (Any): Variable keyword arguments'',
              '''', ''Returns:'', ''    Any: Description of return value'']"
proof -
  let ?e = "extract_function_info py39 ''f''
            (no_arguments\<lparr>args := [plain ''a'', plain ''b''], vararg := Some (plain ''args''),
                          kwarg := Some (plain ''kw''), defaults := [Constant (NonStr ''1'')]\<rparr>)
            [pass_stmt] None None"
  have "map_sum id (\<lambda>info. map (\<lambda>p. (arg_name p, arg_type p, arg_vararg p, arg_kwargs p))
          (info_args info)) ?e =
        Inr [(''a'', ''Any'', None, None), (''b'', ''Any'', None, None),
             (''args'', ''Any'', Some True, None), (''kw'', ''Any'', None, Some True)]"
    by code_simp
  then obtain info where h: "?e = Inr info"
    and ps: "map (\<lambda>p. (arg_name p, arg_type p, arg_vararg p, arg_kwargs p)) (info_args info) =
        [(''a'', ''Any'', None, None), (''b'', ''Any'', None, None),
         (''args'', ''Any'', Some True, None), (''kw'', ''Any'', None, Some True)]"
    by (cases ?e) auto
  from ps obtain p1 p2 p3 p4 where l: "info_args info = [p1, p2, p3, p4]"
    and "arg_name p1 = ''a''" "arg_type p1 = ''Any''" "arg_vararg p1 = None" "arg_kwargs p1 = None"
    and "arg_name p2 = ''b''" "arg_type p2 = ''Any''" "arg_vararg p2 = None" "arg_kwargs p2 = None"
    and "arg_name p3 = ''args''" "arg_type p3 = ''Any''" "arg_vararg p3 = Some True"
    and "arg_name p4 = ''kw''" "arg_type p4 = ''Any''" "arg_vararg p4 = None"
      "arg_kwargs p4 = Some True"
    by (auto simp: map_eq_Cons_conv)
  then have "spec_baseline_lines ''f'' (info_args info) =
      [''f'', '''', ''Args:'',
       ''    a (Any): Description of a'',
       ''    b (Any): Description of b'',
       ''    *args (Any): Variable positional arguments'',
       ''    **kw (Any): Variable keyword arguments'',
       '''', ''Returns:'', ''    Any: Description of return value'']"
    by (simp add: spec_baseline_lines_def spec_arg_line_def spec_returns_section_def)
  with baseline_docstring_structure[OF h] h show ?thesis by auto
qed

subsection \<open>C6: the comment statistics\<close>

text \<open>
  C6 says that a triple-quoted string literal counts towards the documentation-like
  lines exactly when its inner content, the quotes stripped, is non-empty and not purely
  numeric. \<^verbatim>\<open>count_all_comments\<close> tests \<^verbatim>\<open>token_str[3:-3].strip()\<close>: the inner content is
  trimmed first. The literal made of three blanks between triple double quotes, as in
  \<^verbatim>\<open>x = """   """\<close>, has a non-empty, non-numeric inner content; it adds one line to the
  multi-line counter and none to the documentation-like counter.
\<close>

theorem blank_literal_counterexample:
  "documentation_like_untrimmed (string_token (DQ3 @ ''   '' @ DQ3)) \<and>
   multi_line_comments (count_all_comments
     (Completed [other_token ''x'', other_token ''='', string_token (DQ3 @ ''   '' @ DQ3),
                 other_token NL, other_token []])
     (''x = '' @ DQ3 @ ''   '' @ DQ3 @ NL)) = 1 \<and>
   docstring_lines (count_all_comments
     (Completed [other_token ''x'', other_token ''='', string_token (DQ3 @ ''   '' @ DQ3),
                 other_token NL, other_token []])
     (''x = '' @ DQ3 @ ''   '' @ DQ3 @ NL)) = 0"
  by code_simp

text \<open>
  C6 as amended: when the tokenizer runs to its end, the single-line counter is the number
  of \<^verbatim>\<open>COMMENT\<close> tokens, the multi-line counter is the sum of the line spans of the
  string-literal tokens whose trimmed text begins and ends with the same triple-quote
  delimiter, and the documentation-like counter is the sum of the line spans of those
  among them whose inner content, trimmed of surrounding whitespace, is non-empty and not
  purely numeric; and on every input the total is the single-line count plus the
  multi-line count.
\<close>

theorem comment_statistics:
  "single_line_comments (count_all_comments (Completed ts) src) =
     length (filter is_comment ts) \<and>
   multi_line_comments (count_all_comments (Completed ts) src) =
     sum_list (map spans_lines (filter triple_quoted_literal ts)) \<and>
   docstring_lines (count_all_comments (Completed ts) src) =
     sum_list (map spans_lines (filter documentation_like ts)) \<and>
   total_comments (count_all_comments tokens src) =
     single_line_comments (count_all_comments tokens src) +
     multi_line_comments (count_all_comments tokens src)"
  by (simp add: total_is_sum) (simp add: count_all_comments_def token_loop_sums)

theorem comment_statistics_witness:
  "single_line_comments (count_all_comments
     (Completed [comment_token ''# a comment'', other_token NL,
                 string_token (DQ3 @ ''not a docstring'' @ DQ3), other_token NL, other_token []])
     (''# a comment'' @ NL @ DQ3 @ ''not a docstring'' @ DQ3 @ NL)) = 1 \<and>
   multi_line_comments (count_all_comments
     (Completed [comment_token ''# a comment'', other_token NL,
                 string_token (DQ3 @ ''not a docstring'' @ DQ3), other_token NL, other_token []])
     (''# a comment'' @ NL @ DQ3 @ ''not a docstring'' @ DQ3 @ NL)) = 1"
proof -
  let ?ts = "[comment_token ''# a comment'', other_token NL,
              string_token (DQ3 @ ''not a docstring'' @ DQ3), other_token NL, other_token []]"
  have a: "length (filter is_comment ?ts) = 1" by code_simp
  have b: "sum_list (map spans_lines (filter triple_quoted_literal ?ts)) = 1" by code_simp
  from comment_statistics[of ?ts "''# a comment'' @ NL @ DQ3 @ ''not a docstring'' @ DQ3 @ NL"]
  show ?thesis by (simp only: a b)
qed

subsection \<open>C7: the docstring coverage\<close>

text \<open>
  C7 says that the coverage percentage is zero exactly when there is no callable at all.
  The quotient is also zero when callables exist and none of them is documented: for
  \<^verbatim>\<open>def f(): pass\<close> the report counts no callable with a docstring, one without, and a
  coverage of zero.
\<close>

theorem coverage_zero_counterexample:
  "map_sum id (\<lambda>r. (counts_docstring_coverage (report_counts r),
                    counts_total_with_docstrings (report_counts r),
                    counts_total_without_docstrings (report_counts r)))
     (analyze_python_code py39 (Inr (Module [FunctionDef ''f'' no_arguments [pass_stmt] None]))
        (Completed (map other_token
           [''def'', ''f'', ''('', '')'', '':'', ''pass'', NL, []]))
        (''def f(): pass'' @ NL))
   = Inr (0, 0, 1)"
  by code_simp

text \<open>
  C7 as amended: for every input on which the analysis returns a report, the coverage
  percentage is the number of callables with docstrings divided by the number of
  callables with plus without docstrings, times 100, and 0 when that total is 0; it lies
  between 0 and 100; and it is 0 exactly when no callable has a docstring. (The quotient
  is computed in the reals; Python rounds it to a float.)
\<close>

theorem docstring_coverage_value:
  assumes "analyze_python_code u p t src = Inr r"
  shows "counts_docstring_coverage (report_counts r) =
           (if counts_total_with_docstrings (report_counts r) +
               counts_total_without_docstrings (report_counts r) = 0 then 0
            else real (counts_total_with_docstrings (report_counts r)) /
                 real (counts_total_with_docstrings (report_counts r) +
                       counts_total_without_docstrings (report_counts r)) * 100) \<and>
         0 \<le> counts_docstring_coverage (report_counts r) \<and>
         counts_docstring_coverage (report_counts r) \<le> 100 \<and>
         (counts_docstring_coverage (report_counts r) = 0) =
           (counts_total_with_docstrings (report_counts r) = 0)"
proof -
  from assms obtain st where ok: "counters_ok st"
    and r: "r = build_report st (count_all_comments t src)"
    by (rule analyze_counters_ok)
  define w where "w = functions_with_docstrings st + methods_with_docstrings st"
  define wo where "wo = functions_without_docstrings st + methods_without_docstrings st"
  from ok have len: "length (function_details st) + length (method_details st) = w + wo"
    by (simp add: counters_ok_def w_def wo_def)
  have cov: "counts_docstring_coverage (report_counts r) =
      (if 0 < w + wo then real w / real (w + wo) * 100 else 0)"
    and tw: "counts_total_with_docstrings (report_counts r) = w"
    and two: "counts_total_without_docstrings (report_counts r) = wo"
    using len by (simp_all add: r build_report_def Let_def w_def wo_def)
  show ?thesis
  proof (cases "w + wo = 0")
    case True
    then show ?thesis by (simp add: cov tw two)
  next
    case False
    then have pos: "0 < w + wo" by simp
    have le: "w \<le> w + wo" by simp
    from ratio_bounds[OF le pos] pos show ?thesis
      by (simp add: cov tw two del: of_nat_add)
  qed
qed

theorem docstring_coverage_value_witness:
  "\<exists>r. analyze_python_code py39
          (Inr (Module [FunctionDef ''f'' no_arguments [Expr (Constant (Str ''doc''))] None,
                        FunctionDef ''g'' no_arguments [pass_stmt] None]))
          (Completed
             (map other_token [''def'', ''f'', ''('', '')'', '':'', NL, ''    ''] @
              [string_token ([CHR 0x22] @ ''doc'' @ [CHR 0x22])] @
              map other_token [NL, [], ''def'', ''g'', ''('', '')'', '':'', ''pass'', NL, []]))
          (''def f():'' @ NL @ ''    '' @ [CHR 0x22] @ ''doc'' @ [CHR 0x22] @ NL @
           ''def g(): pass'' @ NL) = Inr r \<and>
        counts_docstring_coverage (report_counts r) = 50"
proof -
  let ?a = "analyze_python_code py39
          (Inr (Module [FunctionDef ''f'' no_arguments [Expr (Constant (Str ''doc''))] None,
                        FunctionDef ''g'' no_arguments [pass_stmt] None]))
          (Completed
             (map other_token [''def'', ''f'', ''('', '')'', '':'', NL, ''    ''] @
              [string_token ([CHR 0x22] @ ''doc'' @ [CHR 0x22])] @
              map other_token [NL, [], ''def'', ''g'', ''('', '')'', '':'', ''pass'', NL, []]))
          (''def f():'' @ NL @ ''    '' @ [CHR 0x22] @ ''doc'' @ [CHR 0x22] @ NL @
           ''def g(): pass'' @ NL)"
  have "map_sum id (\<lambda>r. (counts_total_with_docstrings (report_counts r),
                         counts_total_without_docstrings (report_counts r))) ?a = Inr (1, 1)"
    by code_simp
  then obtain r where h: "?a = Inr r"
    and w: "counts_total_with_docstrings (report_counts r) = 1"
      "counts_total_without_docstrings (report_counts r) = 1"
    by (cases ?a) auto
  from docstring_coverage_value[OF h] have "counts_docstring_coverage (report_counts r) = 50"
    by (simp add: w)
  with h show ?thesis by blast
qed

subsection \<open>C8: the errors of the analysis\<close>

text \<open>
  C8 says that the analysis returns a report for every input that parses. The defaults
  loop of \<^verbatim>\<open>_extract_function_info\<close> guards its index with \<^verbatim>\<open>i < len(args_info)\<close> only;
  with the defaults of positional-only parameters the index is negative and, on a list
  too short, \<^verbatim>\<open>args_info[i]\<close> raises \<^verbatim>\<open>IndexError\<close>, which nothing catches. The theorem
  runs the analysis on \<^verbatim>\<open>def f(a=1, /): pass\<close>, which parses.
\<close>

theorem parseable_input_raises_IndexError:
  "analyze_python_code py39
     (Inr (Module [FunctionDef ''f''
        (no_arguments\<lparr>posonlyargs := [plain ''a''], defaults := [Constant (NonStr ''1'')]\<rparr>)
        [pass_stmt] None]))
     (Completed (map other_token
        [''def'', ''f'', ''('', ''a'', ''='', ''1'', '','', ''/'', '')'', '':'', ''pass'', NL, []]))
     (''def f(a=1, /): pass'' @ NL)
   = Inl IndexError"
  by code_simp

subsection \<open>C9: determinism\<close>



subsection \<open>C10: documentation-like lines and multi-line lines\<close>

text \<open>
  C10: for every input string, whatever the tokenizer does on it, the documentation-like
  line count never exceeds the multi-line literal count. In the token loop every increment
  of the first comes with the same increment of the second, and the line-scanning fallback
  only increments the single-line and multi-line counters: it leaves the documentation-like
  count as the token loop left it.
\<close>

theorem docstring_lines_le_multi_line:
  "docstring_lines (count_all_comments tokens source_code)
     \<le> multi_line_comments (count_all_comments tokens source_code)"
proof -
  obtain ts where ts: "tokens = Completed ts \<or> tokens = Raised ts"
    by (cases tokens) auto
  obtain s m d where t: "token_loop ts (0, 0, 0) = (s, m, d)"
    by (cases "token_loop ts (0, 0, 0)") auto
  have dm: "d \<le> m"
    using t filter_documentation_like_le[of ts] by (simp add: token_loop_sums)
  obtain s' m' d' where l: "line_loop (splitlines source_code) (s, m, d) = (s', m', d')"
    by (cases "line_loop (splitlines source_code) (s, m, d)") auto
  then have "d' = d \<and> m \<le> m'" by (rule line_loop_doc)
  with dm ts t l show ?thesis by (auto simp: count_all_comments_def)
qed

theorem docstring_lines_le_multi_line_witness:
  "docstring_lines (count_all_comments
      (Raised [string_token (DQ3 @ ''doc'' @ DQ3), other_token NL, other_token ''('',
               other_token NL])
      (DQ3 @ ''doc'' @ DQ3 @ NL @ ''('' @ NL))
     \<le> multi_line_comments (count_all_comments
      (Raised [string_token (DQ3 @ ''doc'' @ DQ3), other_token NL, other_token ''('',
               other_token NL])
      (DQ3 @ ''doc'' @ DQ3 @ NL @ ''('' @ NL)) \<and>
   docstring_lines (count_all_comments
      (Raised [string_token (DQ3 @ ''doc'' @ DQ3), other_token NL, other_token ''('',
               other_token NL])
      (DQ3 @ ''doc'' @ DQ3 @ NL @ ''('' @ NL)) = 1 \<and>
   multi_line_comments (count_all_comments
      (Raised [string_token (DQ3 @ ''doc'' @ DQ3), other_token NL, other_token ''('',
               other_token NL])
      (DQ3 @ ''doc'' @ DQ3 @ NL @ ''('' @ NL)) = 2"
proof -
  let ?c = "count_all_comments
      (Raised [string_token (DQ3 @ ''doc'' @ DQ3), other_token NL, other_token ''('',
               other_token NL])
      (DQ3 @ ''doc'' @ DQ3 @ NL @ ''('' @ NL)"
  have a: "docstring_lines ?c \<le> multi_line_comments ?c"
    by (rule docstring_lines_le_multi_line)
  have b: "docstring_lines ?c = 1 \<and> multi_line_comments ?c = 2" by code_simp
  from a b show ?thesis by blast
qed

end
